theory Spec2Isabelle
  imports Main
begin

section \<open>Auto-reconnection: the \<open>useAutoReconnect\<close> hook\<close>

text \<open>
  The hook of \<open>docs/PHASE_5_ADVANCED.md\<close> keeps two pieces of React state
  (\<open>isReconnecting\<close>, \<open>reconnectAttempt\<close>) and one ref (\<open>reconnectTimerRef\<close>). Its
  effects reach three things outside it, which the model carries in the same record:
  the timeouts the JavaScript event loop holds (\<open>pending\<close>, each with the identifier
  \<open>setTimeout\<close> returned and the delay it was given), the console, and the
  caller-supplied \<open>onReconnect\<close> callback, of which the model counts the invocations.
  Timer identifiers start at 1, so that every identifier is truthy, as the test
  \<open>if (reconnectTimerRef.current)\<close> of the source assumes.
\<close>

record Settings =
  autoReconnect :: bool
  reconnectAttempts :: int
  reconnectDelay :: int

datatype console_line =
    MaxReached                      \<comment> \<open>\<open>'Max reconnection attempts reached'\<close>\<close>
  | Reconnecting int int int        \<comment> \<open>\<open>`Reconnecting in ${delay}ms (attempt ${n}/${max})`\<close>\<close>

record Hook =
  isReconnecting :: bool
  reconnectAttempt :: int
  reconnectTimerRef :: "nat option"
  pending :: "(nat \<times> int) list"
  nextTimerId :: nat
  console :: "console_line list"
  reconnects :: nat
  mounted :: bool

definition initialHook :: Hook where
  "initialHook =
     \<lparr>isReconnecting = False, reconnectAttempt = 0, reconnectTimerRef = None,
      pending = [], nextTimerId = 1, console = [], reconnects = 0, mounted = True\<rparr>"

text \<open>\<open>clearTimeout(id)\<close>: the timeout, if still pending, is dropped from the event loop.\<close>

definition clearTimeout :: "nat \<Rightarrow> Hook \<Rightarrow> Hook" where
  "clearTimeout i h = h\<lparr>pending := filter (\<lambda>t. fst t \<noteq> i) (pending h)\<rparr>"

text \<open>
  \<open>attemptReconnect\<close> is a closure of one render: \<open>enabled\<close>, \<open>settings\<close> and
  \<open>reconnectAttempt\<close> are the values that render saw. The third argument is that captured
  \<open>reconnectAttempt\<close>; the guard, the delay and the log line read it, whereas the functional
  update \<open>setReconnectAttempt((prev) => prev + 1)\<close> works on the state itself. The new
  timer overwrites \<open>reconnectTimerRef.current\<close>; a timer the ref held before is not
  cleared.
\<close>

definition attemptReconnect :: "bool \<Rightarrow> Settings \<Rightarrow> int \<Rightarrow> Hook \<Rightarrow> Hook" where
  "attemptReconnect enabled settings captured h =
     (if \<not> enabled \<or> \<not> autoReconnect settings then h
      else if captured \<ge> reconnectAttempts settings then
        h\<lparr>console := console h @ [MaxReached], isReconnecting := False\<rparr>
      else
        (let delay = reconnectDelay settings * captured in
         h\<lparr>isReconnecting := True,
           reconnectAttempt := reconnectAttempt h + 1,
           console := console h @ [Reconnecting delay (captured + 1) (reconnectAttempts settings)],
           pending := pending h @ [(nextTimerId h, delay)],
           reconnectTimerRef := Some (nextTimerId h),
           nextTimerId := Suc (nextTimerId h)\<rparr>))"

definition resetReconnect :: "Hook \<Rightarrow> Hook" where
  "resetReconnect h =
     (let h' = h\<lparr>reconnectAttempt := 0, isReconnecting := False\<rparr> in
      case reconnectTimerRef h' of
        None \<Rightarrow> h'
      | Some i \<Rightarrow> (clearTimeout i h')\<lparr>reconnectTimerRef := None\<rparr>)"

text \<open>The cleanup of the hook's effect, run when the component unmounts.\<close>

definition cleanup :: "Hook \<Rightarrow> Hook" where
  "cleanup h =
     (case reconnectTimerRef h of
        None \<Rightarrow> h\<lparr>mounted := False\<rparr>
      | Some i \<Rightarrow> (clearTimeout i h)\<lparr>mounted := False\<rparr>)"

text \<open>
  Expiry of the timeout \<open>i\<close>. Only a pending timeout can expire; it then leaves the event
  loop and its callback runs: \<open>onReconnect()\<close>, then \<open>setIsReconnecting(false)\<close>, which
  has no effect on an unmounted component. The model keeps no clock: a pending timeout
  may expire at any later step.
\<close>

definition timerFires :: "nat \<Rightarrow> Hook \<Rightarrow> Hook" where
  "timerFires i h =
     (if i \<in> fst ` set (pending h) then
        h\<lparr>pending := filter (\<lambda>t. fst t \<noteq> i) (pending h),
          reconnects := Suc (reconnects h),
          isReconnecting := (if mounted h then False else isReconnecting h)\<rparr>
      else h)"

section \<open>The player component with auto-reconnection\<close>

text \<open>
  \<open>RTSPPlayer\<close> (\<open>src/components/RTSPPlayer.tsx\<close>) as extended by
  \<open>docs/PHASE_5_ADVANCED.md\<close>: its own state, the hook, and the calls it makes to the
  callbacks passed as props. The extension adds \<open>attemptReconnect()\<close> to \<open>handleError\<close>
  and \<open>resetReconnect()\<close> to the \<open>playing\<close> branch of \<open>handleStateChange\<close>; the other
  branches of \<open>handleStateChange\<close> are those of the component.
\<close>

datatype prop_call = OnError string | OnStateChange string

record Player =
  isBuffering :: bool
  error :: "string option"
  playerState :: string
  hook :: Hook
  emitted :: "prop_call list"

definition initialPlayer :: Player where
  "initialPlayer =
     \<lparr>isBuffering = True, error = None, playerState = ''loading'',
      hook = initialHook, emitted = []\<rparr>"

record Config =
  enabled :: bool
  settings :: Settings

definition defaultSettings :: Settings where
  "defaultSettings = \<lparr>autoReconnect = True, reconnectAttempts = 3, reconnectDelay = 5000\<rparr>"

definition defaultConfig :: Config where
  "defaultConfig = \<lparr>enabled = True, settings = defaultSettings\<rparr>"

text \<open>
  Each handler runs in the closure of the latest render, so the \<open>reconnectAttempt\<close> that
  \<open>attemptReconnect\<close> captured is the current state.
\<close>

definition handleError :: "Config \<Rightarrow> string \<Rightarrow> Player \<Rightarrow> Player" where
  "handleError cfg errorMessage p =
     p\<lparr>error := Some errorMessage,
       isBuffering := False,
       emitted := emitted p @ [OnError errorMessage],
       hook := attemptReconnect (enabled cfg) (settings cfg) (reconnectAttempt (hook p)) (hook p)\<rparr>"

definition handleStateChange :: "string \<Rightarrow> Player \<Rightarrow> Player" where
  "handleStateChange state p =
     (let p1 = p\<lparr>playerState := state\<rparr>;
          p2 = (if state = ''playing'' then
                  p1\<lparr>isBuffering := False, error := None, hook := resetReconnect (hook p1)\<rparr>
                else if state = ''buffering'' \<or> state = ''opening'' then
                  p1\<lparr>isBuffering := True\<rparr>
                else if state = ''error'' then
                  p1\<lparr>isBuffering := False\<rparr>
                else p1)
      in p2\<lparr>emitted := emitted p2 @ [OnStateChange state]\<rparr>)"

definition handleBuffering :: "Player \<Rightarrow> Player" where
  "handleBuffering p = p\<lparr>isBuffering := True\<rparr>"

text \<open>
  What can happen to a player: the three events of the native view, the expiry of a
  timeout, and the unmounting of the component. The native view of an unmounted component
  is gone, so its events no longer arrive; a timeout that was not cleared still expires.
\<close>

datatype event =
    PlayerStateChange string
  | PlayerError string
  | Buffering
  | TimerFires nat
  | Unmount

fun step :: "Config \<Rightarrow> event \<Rightarrow> Player \<Rightarrow> Player" where
  "step cfg (PlayerStateChange s) p = (if mounted (hook p) then handleStateChange s p else p)"
| "step cfg (PlayerError m) p = (if mounted (hook p) then handleError cfg m p else p)"
| "step cfg Buffering p = (if mounted (hook p) then handleBuffering p else p)"
| "step cfg (TimerFires i) p = p\<lparr>hook := timerFires i (hook p)\<rparr>"
| "step cfg Unmount p = (if mounted (hook p) then p\<lparr>hook := cleanup (hook p)\<rparr> else p)"

fun run :: "Config \<Rightarrow> event list \<Rightarrow> Player \<Rightarrow> Player" where
  "run cfg [] p = p"
| "run cfg (e # es) p = run cfg es (step cfg e p)"

text \<open>
  Two notions used to state the claims about runs: whether an event is an error signal
  of the player, and the console lines that \<open>attemptReconnect\<close> writes for the attempts
  counted \<open>j + 1\<close> to \<open>u\<close> (the counter is \<open>i\<close> when the line of attempt \<open>i + 1\<close> is
  written, and the delay is a multiple of that \<open>i\<close>).
\<close>

fun isErrorSignal :: "event \<Rightarrow> bool" where
  "isErrorSignal (PlayerError m) = True"
| "isErrorSignal _ = False"

definition attemptLines :: "Settings \<Rightarrow> nat \<Rightarrow> nat \<Rightarrow> console_line list" where
  "attemptLines s j u =
     map (\<lambda>i. Reconnecting (reconnectDelay s * int i) (int i + 1) (reconnectAttempts s)) [j..<u]"

text \<open>
  Calls of \<open>attemptReconnect\<close> made one after the other from the same render, as in the
  loop of the test \<open>should respect max retry attempts\<close> of \<open>docs/PHASE_6_TESTING.md\<close>,
  which calls \<open>result.current.attemptReconnect()\<close> five times in a row. No render comes
  between the calls, so each of them is the same closure and reads the counter that this
  render saw.
\<close>

definition callsInOneRender :: "Config \<Rightarrow> nat \<Rightarrow> Hook \<Rightarrow> Hook" where
  "callsInOneRender cfg n h =
     ((attemptReconnect (enabled cfg) (settings cfg) (reconnectAttempt h)) ^^ n) h"

section \<open>Picture-in-Picture: the \<open>usePictureInPicture\<close> hook\<close>

text \<open>
  \<open>startPiP\<close> of \<open>docs/PHASE_3_PIP.md\<close> reads the hook's \<open>pipStatus\<close> and its
  \<open>viewRef\<close>, and nothing else. It returns a boolean; the model returns it together with
  the calls made to the native view. \<open>viewRef.current?.startPictureInPicture()\<close> makes no
  call when no view is attached, and the \<open>await\<close> of a call made either resolves or
  rejects, the latter being caught and answered with \<open>false\<close>.
\<close>

record PiPStatus =
  isActive :: bool
  isPossible :: bool
  isSupported :: bool

datatype native_call = StartPictureInPicture | StopPictureInPicture

datatype promise = Resolves | Rejects

definition startPiP :: "PiPStatus \<Rightarrow> bool \<Rightarrow> promise \<Rightarrow> bool \<times> native_call list" where
  "startPiP status viewAttached outcome =
     (if \<not> isSupported status then (False, [])
      else if \<not> isPossible status then (False, [])
      else if \<not> viewAttached then (True, [])
      else (case outcome of
              Resolves \<Rightarrow> (True, [StartPictureInPicture])
            | Rejects \<Rightarrow> (False, [StartPictureInPicture])))"

text \<open>
  A screen (\<open>App\<close>, \<open>PlayerScreen\<close>) mounts the hook next to the player; the state of the
  session (\<open>playerState\<close>) lives in the player, the PiP flags in the hook, which outlives
  the player when the user disconnects and connects again. \<open>viewRef\<close> tells whether
  \<open>viewRef.current\<close> holds a view.
\<close>

record Screen =
  player :: Player
  pipStatus :: PiPStatus
  viewRef :: bool

section \<open>RTSP URLs: \<open>src/utils/rtspHelper.ts\<close>\<close>

subsection \<open>Camera configurations and the two builders\<close>

text \<open>
  A JavaScript string is modelled by its UTF-8 bytes. A \<open>number\<close> is an integer or
  \<open>NaN\<close>, which are the values \<open>parseInt\<close> returns. \<open>CameraConfigOf\<close> is the
  interface \<open>CameraConfig\<close> with the type of its three required fields left open:
  \<open>string\<close> for \<open>CameraConfig\<close> itself, \<open>string option\<close> for \<open>Partial<CameraConfig>\<close>.
  An optional field that is \<open>undefined\<close> is \<open>None\<close>.
\<close>

datatype number = Num int | NaN

datatype Protocol = Rtsp | Http

record 's CameraConfigOf =
  username :: 's
  password :: 's
  ipAddress :: 's
  port :: "number option"
  streamPath :: "string option"
  protocol :: "Protocol option"

type_synonym CameraConfig = "string CameraConfigOf"

type_synonym PartialCameraConfig = "string option CameraConfigOf"


record RTSPUrlOptions =
  useSubStream :: "bool option"
  useTCP :: "bool option"


text \<open>
  A number inside a template literal: the decimal digits, with a minus sign for a
  negative integer (JavaScript switches to exponent notation from \<open>10^21\<close> on, far
  beyond any port).
\<close>

fun decimalDigits :: "nat \<Rightarrow> string" where
  "decimalDigits n =
     (if n < 10 then [''0123456789'' ! n]
      else decimalDigits (n div 10) @ [''0123456789'' ! (n mod 10)])"

declare decimalDigits.simps [simp del]

definition numberToString :: "number \<Rightarrow> string" where
  "numberToString x =
     (case x of
        NaN \<Rightarrow> ''NaN''
      | Num i \<Rightarrow> if i < 0 then CHR ''-'' # decimalDigits (nat (- i)) else decimalDigits (nat i))"

definition buildTapoRTSPUrl :: "CameraConfig \<Rightarrow> RTSPUrlOptions \<Rightarrow> string" where
  "buildTapoRTSPUrl config options =
     (let port' = (case port config of None \<Rightarrow> Num 554 | Some n \<Rightarrow> n);
          useSubStream' = (case useSubStream options of None \<Rightarrow> False | Some b \<Rightarrow> b);
          streamPath' = (if useSubStream' then ''stream2'' else ''stream1'')
      in ''rtsp://'' @ username config @ '':'' @ password config @ ''@'' @ ipAddress config
           @ '':'' @ numberToString port' @ ''/'' @ streamPath')"

definition buildRTSPUrl :: "CameraConfig \<Rightarrow> RTSPUrlOptions \<Rightarrow> string" where
  "buildRTSPUrl config options =
     (let port' = (case port config of None \<Rightarrow> Num 554 | Some n \<Rightarrow> n);
          streamPath' = (case streamPath config of None \<Rightarrow> ''stream1'' | Some s \<Rightarrow> s)
      in ''rtsp://'' @ username config @ '':'' @ password config @ ''@'' @ ipAddress config
           @ '':'' @ numberToString port' @ ''/'' @ streamPath')"

subsection \<open>Characters and \<open>parseInt\<close>\<close>

definition charCode :: "char \<Rightarrow> nat" where
  "charCode c = of_char c"

definition asciiDigit :: "char \<Rightarrow> bool" where
  "asciiDigit c = (48 \<le> charCode c \<and> charCode c \<le> 57)"

definition asciiUpperAlpha :: "char \<Rightarrow> bool" where
  "asciiUpperAlpha c = (65 \<le> charCode c \<and> charCode c \<le> 90)"

definition asciiLowerAlpha :: "char \<Rightarrow> bool" where
  "asciiLowerAlpha c = (97 \<le> charCode c \<and> charCode c \<le> 122)"

definition asciiAlpha :: "char \<Rightarrow> bool" where
  "asciiAlpha c = (asciiUpperAlpha c \<or> asciiLowerAlpha c)"

definition asciiLowercase :: "char \<Rightarrow> char" where
  "asciiLowercase c =
     (if asciiUpperAlpha c then ''abcdefghijklmnopqrstuvwxyz'' ! (charCode c - 65) else c)"

text \<open>The value of a character as a digit; 36 for a character that is a digit in no radix.\<close>

definition digitValue :: "char \<Rightarrow> nat" where
  "digitValue c =
     (if asciiDigit c then charCode c - 48
      else if asciiLowerAlpha c then charCode c - 87
      else if asciiUpperAlpha c then charCode c - 55
      else 36)"

definition digitsValue :: "nat \<Rightarrow> string \<Rightarrow> nat" where
  "digitsValue radix ds = foldl (\<lambda>a c. a * radix + digitValue c) 0 ds"

text \<open>
  \<open>parseInt(string)\<close> with no radix: leading white space (the ASCII white space here), a
  sign, a \<open>0x\<close> prefix for radix 16, then the longest run of digits; \<open>NaN\<close> when that run
  is empty.
\<close>

definition isWhiteSpace :: "char \<Rightarrow> bool" where
  "isWhiteSpace c = (charCode c \<in> {9, 10, 11, 12, 13, 32})"

definition parseInt :: "string \<Rightarrow> number" where
  "parseInt str =
     (let s0 = dropWhile isWhiteSpace str;
          negative = (case s0 of c # _ \<Rightarrow> c = CHR ''-'' | [] \<Rightarrow> False);
          s1 = (case s0 of
                  c # r \<Rightarrow> if c = CHR ''-'' \<or> c = CHR ''+'' then r else s0
                | [] \<Rightarrow> s0);
          hex = (case s1 of
                   a # b # _ \<Rightarrow> a = CHR ''0'' \<and> (b = CHR ''x'' \<or> b = CHR ''X'')
                 | _ \<Rightarrow> False);
          radix = (if hex then 16 else 10);
          s2 = (if hex then drop 2 s1 else s1);
          z = takeWhile (\<lambda>c. digitValue c < radix) s2
      in if z = [] then NaN
         else if negative then Num (- int (digitsValue radix z))
         else Num (int (digitsValue radix z)))"

subsection \<open>The URL class\<close>

text \<open>
  \<open>parseRTSPUrl\<close> hands its argument to \<open>new URL(url)\<close> and reads six properties of the
  object. The class is the platform's, not the repository's, so \<open>parseRTSPUrl\<close> below
  takes the constructor as a parameter: a function that returns the object, or \<open>None\<close>
  where the constructor throws.

  \<open>newURL\<close> is one such constructor, written after the URL Standard (WHATWG): the basic
  URL parser without a base URL. \<open>rtsp\<close> is not one of the standard's special schemes,
  so its host is an opaque host or an IPv6 literal, nothing is case-folded but the
  scheme, and no port is a default port. The special schemes (\<open>http\<close>, \<open>https\<close>, \<open>ws\<close>,
  \<open>wss\<close>, \<open>ftp\<close>, \<open>file\<close>) have further rules for hosts, backslashes and default ports;
  \<open>newURL\<close> does not model them and treats every scheme as it treats \<open>rtsp\<close>.
  \<open>parseRTSPUrl\<close> cannot tell the difference: it answers \<open>null\<close> both to a constructor
  that throws and to a protocol other than \<open>rtsp:\<close>.
\<close>

record URL =
  url_protocol :: string
  url_username :: string
  url_password :: string
  url_hostname :: string
  url_port :: string
  url_pathname :: string

definition c0ControlOrSpace :: "char \<Rightarrow> bool" where
  "c0ControlOrSpace c = (charCode c \<le> 32)"

definition asciiTabOrNewline :: "char \<Rightarrow> bool" where
  "asciiTabOrNewline c = (charCode c \<in> {9, 10, 13})"

text \<open>
  The percent-encode sets, by character code: the C0 control set (with everything above
  the tilde, hence every byte of a non-ASCII character), the query set (adding space,
  the double quote, \<open>#\<close>, \<open><\<close> and \<open>>\<close>), the path set (adding \<open>?\<close>, \<open>^\<close>, the
  backtick, \<open>{\<close> and \<open>}\<close>) and the userinfo set (adding \<open>/\<close>, \<open>:\<close>, \<open>;\<close>, \<open>=\<close>,
  \<open>@\<close>, \<open>[\<close>, the backslash, \<open>]\<close> and \<open>|\<close>).
\<close>

definition c0ControlSet :: "char \<Rightarrow> bool" where
  "c0ControlSet c = (charCode c < 32 \<or> 126 < charCode c)"

definition querySet :: "char \<Rightarrow> bool" where
  "querySet c = (c0ControlSet c \<or> charCode c \<in> {32, 34, 35, 60, 62})"

definition pathSet :: "char \<Rightarrow> bool" where
  "pathSet c = (querySet c \<or> charCode c \<in> {63, 94, 96, 123, 125})"

definition userinfoSet :: "char \<Rightarrow> bool" where
  "userinfoSet c = (pathSet c \<or> charCode c \<in> {47, 58, 59, 61, 64, 91, 92, 93, 124})"

text \<open>
  Forbidden host code points: NUL, tab, LF, CR, space, \<open>#\<close>, \<open>/\<close>, \<open>:\<close>, \<open><\<close>, \<open>>\<close>, \<open>?\<close>,
  \<open>@\<close>, \<open>[\<close>, the backslash, \<open>]\<close>, \<open>^\<close> and \<open>|\<close>.
\<close>

definition forbiddenHostCodePoint :: "char \<Rightarrow> bool" where
  "forbiddenHostCodePoint c =
     (charCode c \<in> {0, 9, 10, 13, 32, 35, 47, 58, 60, 62, 63, 64, 91, 92, 93, 94, 124})"

definition percentEncode :: "char \<Rightarrow> string" where
  "percentEncode c =
     [CHR ''%'', ''0123456789ABCDEF'' ! (charCode c div 16),
      ''0123456789ABCDEF'' ! (charCode c mod 16)]"

definition percentEncodeWith :: "(char \<Rightarrow> bool) \<Rightarrow> string \<Rightarrow> string" where
  "percentEncodeWith inSet s = concat (map (\<lambda>c. if inSet c then percentEncode c else [c]) s)"

definition trimC0ControlOrSpace :: "string \<Rightarrow> string" where
  "trimC0ControlOrSpace s =
     rev (dropWhile c0ControlOrSpace (rev (dropWhile c0ControlOrSpace s)))"

text \<open>
  The scheme: a letter, then letters, digits, \<open>+\<close>, \<open>-\<close> and \<open>.\<close> up to a colon, in lower
  case. Without a scheme there is no URL, as there is no base. The result is the scheme
  and what follows the colon.
\<close>

definition schemeChar :: "char \<Rightarrow> bool" where
  "schemeChar c = (asciiAlpha c \<or> asciiDigit c \<or> charCode c \<in> {43, 45, 46})"

definition parseScheme :: "string \<Rightarrow> (string \<times> string) option" where
  "parseScheme s =
     (case s of
        [] \<Rightarrow> None
      | c # _ \<Rightarrow>
          if \<not> asciiAlpha c then None
          else (case dropWhile schemeChar s of
                  [] \<Rightarrow> None
                | d # rest \<Rightarrow>
                    if d = CHR '':'' then Some (map asciiLowercase (takeWhile schemeChar s), rest)
                    else None))"

text \<open>
  The authority runs up to the first \<open>/\<close>, \<open>?\<close> or \<open>#\<close>. What precedes its last \<open>@\<close> is
  the userinfo: the user name up to the first colon, the password after it.
\<close>

definition authorityEnd :: "char \<Rightarrow> bool" where
  "authorityEnd c = (charCode c \<in> {47, 63, 35})"

definition splitCredentials :: "string \<Rightarrow> (string \<times> string) option" where
  "splitCredentials authority =
     (let r = rev authority in
      case dropWhile (\<lambda>c. c \<noteq> CHR ''@'') r of
        [] \<Rightarrow> None
      | _ # front \<Rightarrow> Some (rev front, rev (takeWhile (\<lambda>c. c \<noteq> CHR ''@'') r)))"

text \<open>The host ends at the first colon outside square brackets; the port text follows it.\<close>

fun scanHost :: "bool \<Rightarrow> string \<Rightarrow> string \<times> string option" where
  "scanHost insideBrackets [] = ([], None)"
| "scanHost insideBrackets (c # cs) =
     (if c = CHR '':'' \<and> \<not> insideBrackets then ([], Some cs)
      else (let r = scanHost (if c = CHR ''['' then True
                              else if c = CHR '']'' then False
                              else insideBrackets) cs
            in (c # fst r, snd r)))"

text \<open>A port: digits only, at most 65535; \<open>Some None\<close> is the null port of an empty text.\<close>

definition parsePort :: "string \<Rightarrow> nat option option" where
  "parsePort buffer =
     (if \<not> list_all asciiDigit buffer then None
      else if buffer = [] then Some None
      else if digitsValue 10 buffer > 65535 then None
      else Some (Some (digitsValue 10 buffer)))"

definition parseOpaqueHost :: "string \<Rightarrow> string option" where
  "parseOpaqueHost s =
     (if list_ex forbiddenHostCodePoint s then None
      else Some (percentEncodeWith c0ControlSet s))"

text \<open>
  An IPv6 literal between square brackets: eight 16-bit pieces in hexadecimal, at most
  one \<open>::\<close> standing for a run of zero pieces, and optionally a dotted IPv4 address in
  place of the last two pieces. \<open>ipv6Pieces\<close> carries the pieces read so far and the
  index of the \<open>::\<close>.
\<close>

definition asciiHexDigit :: "char \<Rightarrow> bool" where
  "asciiHexDigit c = (digitValue c < 16)"

fun splitOn :: "char \<Rightarrow> string \<Rightarrow> string list" where
  "splitOn sep [] = [[]]"
| "splitOn sep (c # cs) =
     (if c = sep then [] # splitOn sep cs
      else (case splitOn sep cs of
              seg # segs \<Rightarrow> (c # seg) # segs
            | [] \<Rightarrow> [[c]]))"

definition ipv4Number :: "string \<Rightarrow> nat option" where
  "ipv4Number t =
     (if t = [] \<or> \<not> list_all asciiDigit t then None
      else if 1 < length t \<and> take 1 t = ''0'' then None
      else if 255 < digitsValue 10 t then None
      else Some (digitsValue 10 t))"

definition ipv4InIPv6 :: "string \<Rightarrow> nat list option" where
  "ipv4InIPv6 s =
     (case map ipv4Number (splitOn (CHR ''.'') s) of
        [Some a, Some b, Some c, Some d] \<Rightarrow> Some [a * 256 + b, c * 256 + d]
      | _ \<Rightarrow> None)"

function ipv6Pieces :: "nat list \<Rightarrow> nat option \<Rightarrow> string \<Rightarrow> (nat list \<times> nat option) option" where
  "ipv6Pieces address compress [] = Some (address, compress)"
| "ipv6Pieces address compress (c # cs) =
     (if length address = 8 then None
      else if c = CHR '':'' then
        (if compress \<noteq> None then None
         else ipv6Pieces (address @ [0]) (Some (Suc (length address))) cs)
      else
        (let digits = takeWhile asciiHexDigit (take 4 (c # cs));
             rest = drop (length digits) (c # cs)
         in case rest of
              [] \<Rightarrow> Some (address @ [digitsValue 16 digits], compress)
            | d # rest' \<Rightarrow>
                if d = CHR ''.'' then
                  (if digits = [] \<or> 6 < length address then None
                   else (case ipv4InIPv6 (c # cs) of
                           None \<Rightarrow> None
                         | Some two \<Rightarrow> Some (address @ two, compress)))
                else if d = CHR '':'' \<and> digits \<noteq> [] then
                  (if rest' = [] then None
                   else ipv6Pieces (address @ [digitsValue 16 digits]) compress rest')
                else None))"
  by pat_completeness auto
termination
proof (relation "measure (\<lambda>(a, c, s). length s)", goal_cases)
  case 1
  show ?case by simp
next
  case 2
  show ?case by simp
next
  case (3 address compress c cs digits rest d rest')
  have "length rest \<le> length (c # cs)"
    unfolding 3(4) by simp
  then show ?case
    unfolding 3(5) by simp
qed

definition parseIPv6 :: "string \<Rightarrow> nat list option" where
  "parseIPv6 s =
     (let start = (case s of
                     c # cs \<Rightarrow>
                       if c = CHR '':'' then
                         (case cs of
                            d # ds \<Rightarrow> if d = CHR '':'' then ipv6Pieces [0] (Some 1) ds else None
                          | [] \<Rightarrow> None)
                       else ipv6Pieces [] None s
                   | [] \<Rightarrow> ipv6Pieces [] None s)
      in case start of
           None \<Rightarrow> None
         | Some (address, None) \<Rightarrow> if length address = 8 then Some address else None
         | Some (address, Some k) \<Rightarrow>
             Some (take k address @ replicate (8 - length address) 0 @ drop k address))"

text \<open>Serialising writes the first longest run of two or more zero pieces as \<open>::\<close>.\<close>

fun zeroRun :: "nat list \<Rightarrow> nat" where
  "zeroRun [] = 0"
| "zeroRun (x # xs) = (if x = 0 then Suc (zeroRun xs) else 0)"

fun longestZeroRun :: "nat list \<Rightarrow> nat" where
  "longestZeroRun [] = 0"
| "longestZeroRun (x # xs) = max (zeroRun (x # xs)) (longestZeroRun xs)"

definition hexDigits :: "nat \<Rightarrow> string" where
  "hexDigits n =
     dropWhile (\<lambda>c. c = CHR ''0'')
       (map (\<lambda>k. ''0123456789abcdef'' ! ((n div 16 ^ k) mod 16)) [3, 2, 1])
     @ [''0123456789abcdef'' ! (n mod 16)]"

fun serializePieces :: "nat \<Rightarrow> bool \<Rightarrow> nat list \<Rightarrow> string" where
  "serializePieces best first [] = []"
| "serializePieces best first (x # xs) =
     (if 1 < best \<and> zeroRun (x # xs) = best then
        (if first then ''::'' else '':'') @ serializePieces 0 False (drop best (x # xs))
      else hexDigits x @ (if xs = [] then [] else '':'') @ serializePieces best False xs)"

definition serializeIPv6 :: "nat list \<Rightarrow> string" where
  "serializeIPv6 address = serializePieces (longestZeroRun address) True address"

definition parseHost :: "string \<Rightarrow> string option" where
  "parseHost s =
     (case s of
        c # cs \<Rightarrow>
          if c = CHR ''['' then
            (if cs = [] \<or> last cs \<noteq> CHR '']'' then None
             else (case parseIPv6 (butlast cs) of
                     None \<Rightarrow> None
                   | Some address \<Rightarrow> Some (''['' @ serializeIPv6 address @ '']'')))
          else parseOpaqueHost s
      | [] \<Rightarrow> parseOpaqueHost s)"

text \<open>
  The authority as a whole: user name, password, host and port. Credentials before an
  empty host, and a colon after an empty host, are failures.
\<close>

definition parseAuthority :: "string \<Rightarrow> (string \<times> string \<times> string \<times> nat option) option" where
  "parseAuthority authority =
     (let credentials = splitCredentials authority;
          userinfo = (case credentials of None \<Rightarrow> [] | Some (u, _) \<Rightarrow> u);
          hostPort = (case credentials of None \<Rightarrow> authority | Some (_, h) \<Rightarrow> h);
          buffer = fst (scanHost False hostPort);
          portText = snd (scanHost False hostPort)
      in if credentials \<noteq> None \<and> hostPort = [] then None
         else if portText \<noteq> None \<and> buffer = [] then None
         else (case parseHost buffer of
                 None \<Rightarrow> None
               | Some host \<Rightarrow>
                   (case (case portText of None \<Rightarrow> Some None | Some t \<Rightarrow> parsePort t) of
                      None \<Rightarrow> None
                    | Some portNumber \<Rightarrow>
                        Some (percentEncodeWith userinfoSet
                                (takeWhile (\<lambda>c. c \<noteq> CHR '':'') userinfo),
                              percentEncodeWith userinfoSet
                                (drop 1 (dropWhile (\<lambda>c. c \<noteq> CHR '':'') userinfo)),
                              host, portNumber))))"

text \<open>
  The path: segments between slashes, percent-encoded with the path set; a single-dot
  segment is dropped and a double-dot segment removes the segment before it. The path
  ends at the first \<open>?\<close> or \<open>#\<close>. \<open>endSegment\<close> closes the segment in the buffer, at a
  slash or at the end of the path.
\<close>

definition singleDotSegment :: "string \<Rightarrow> bool" where
  "singleDotSegment b = (map asciiLowercase b \<in> {''.'', ''%2e''})"

definition doubleDotSegment :: "string \<Rightarrow> bool" where
  "doubleDotSegment b = (map asciiLowercase b \<in> {''..'', ''.%2e'', ''%2e.'', ''%2e%2e''})"

definition endSegment :: "string \<Rightarrow> string list \<Rightarrow> bool \<Rightarrow> string list" where
  "endSegment buffer path slash =
     (if doubleDotSegment buffer then (if slash then butlast path else butlast path @ [''''])
      else if singleDotSegment buffer then (if slash then path else path @ [''''])
      else path @ [buffer])"

fun pathState :: "string \<Rightarrow> string list \<Rightarrow> string \<Rightarrow> string list" where
  "pathState buffer path [] = endSegment buffer path False"
| "pathState buffer path (c # cs) =
     (if c = CHR ''/'' then pathState [] (endSegment buffer path True) cs
      else pathState (buffer @ (if pathSet c then percentEncode c else [c])) path cs)"

definition pathEnd :: "char \<Rightarrow> bool" where
  "pathEnd c = (charCode c \<in> {63, 35})"

definition serializePath :: "string list \<Rightarrow> string" where
  "serializePath path = concat (map (\<lambda>seg. CHR ''/'' # seg) path)"

definition parsePath :: "string \<Rightarrow> string" where
  "parsePath s = serializePath (pathState [] [] (takeWhile (\<lambda>c. \<not> pathEnd c) s))"

text \<open>
  The constructor. After the scheme, \<open>//\<close> opens an authority, and the path is what
  follows the authority from its slash on; a single slash opens a path with no host;
  anything else is an opaque path.
\<close>

definition newURL :: "string \<Rightarrow> URL option" where
  "newURL input =
     (case parseScheme (filter (\<lambda>c. \<not> asciiTabOrNewline c) (trimC0ControlOrSpace input)) of
        None \<Rightarrow> None
      | Some (scheme, r) \<Rightarrow>
          (if take 2 r = ''//'' then
             (case parseAuthority (takeWhile (\<lambda>c. \<not> authorityEnd c) (drop 2 r)) of
                None \<Rightarrow> None
              | Some (user, pass, host, portNumber) \<Rightarrow>
                  Some \<lparr>url_protocol = scheme @ '':'',
                        url_username = user,
                        url_password = pass,
                        url_hostname = host,
                        url_port = (case portNumber of None \<Rightarrow> [] | Some n \<Rightarrow> decimalDigits n),
                        url_pathname =
                          (case dropWhile (\<lambda>c. \<not> authorityEnd c) (drop 2 r) of
                             [] \<Rightarrow> []
                           | c # t \<Rightarrow> if c = CHR ''/'' then parsePath t else [])\<rparr>)
           else
             Some \<lparr>url_protocol = scheme @ '':'',
                   url_username = [], url_password = [], url_hostname = [], url_port = [],
                   url_pathname =
                     (if take 1 r = ''/'' then parsePath (drop 1 r)
                      else percentEncodeWith c0ControlSet (takeWhile (\<lambda>c. \<not> pathEnd c) r))\<rparr>))"

subsection \<open>\<open>parseRTSPUrl\<close>\<close>

text \<open>
  The first argument is the URL constructor; \<open>None\<close> from it is the exception that the
  \<open>catch\<close> turns into \<open>null\<close>. \<open>x || undefined\<close> is \<open>undefined\<close> for the empty string,
  \<open>urlObj.port ? ... : 554\<close> takes the second branch for the empty string, and
  \<open>pathname.slice(1)\<close> drops the first character, if there is one.
\<close>

definition parseRTSPUrl :: "(string \<Rightarrow> URL option) \<Rightarrow> string \<Rightarrow> PartialCameraConfig option" where
  "parseRTSPUrl URL url =
     (case URL url of
        None \<Rightarrow> None
      | Some urlObj \<Rightarrow>
          if url_protocol urlObj \<noteq> ''rtsp:'' then None
          else Some \<lparr>username = (if url_username urlObj = [] then None
                                 else Some (url_username urlObj)),
                     password = (if url_password urlObj = [] then None
                                 else Some (url_password urlObj)),
                     ipAddress = Some (url_hostname urlObj),
                     port = Some (if url_port urlObj \<noteq> [] then parseInt (url_port urlObj)
                                  else Num 554),
                     streamPath = Some (drop 1 (url_pathname urlObj)),
                     protocol = None\<rparr>)"





definition portText :: "nat option \<Rightarrow> string" where
  "portText pn = (case pn of None \<Rightarrow> [] | Some n \<Rightarrow> CHR '':'' # decimalDigits n)"

section \<open>Properties of the reconnection logic\<close>

lemma run_append: "run cfg (es @ fs) p = run cfg fs (run cfg es p)"
  by (induction es arbitrary: p) simp_all

lemma attemptReconnect_mounted [simp]:
  "mounted (attemptReconnect en s c h) = mounted h"
  by (simp add: attemptReconnect_def Let_def)

text \<open>One error signal, while attempts remain: a timeout is scheduled.\<close>

lemma step_error_schedules:
  assumes "enabled cfg" "autoReconnect (settings cfg)" "mounted (hook p)"
    and "reconnectAttempt (hook p) = int j" "j < nat (reconnectAttempts (settings cfg))"
  shows "mounted (hook (step cfg (PlayerError m) p))"
    and "reconnectAttempt (hook (step cfg (PlayerError m) p)) = int (Suc j)"
    and "map snd (pending (hook (step cfg (PlayerError m) p))) =
           map snd (pending (hook p)) @ [reconnectDelay (settings cfg) * int j]"
    and "console (hook (step cfg (PlayerError m) p)) =
           console (hook p) @ [Reconnecting (reconnectDelay (settings cfg) * int j) (int j + 1)
                                 (reconnectAttempts (settings cfg))]"
proof -
  from assms(5) have lt: "int j < reconnectAttempts (settings cfg)" by linarith
  show "mounted (hook (step cfg (PlayerError m) p))"
    using assms(3) by (simp add: handleError_def)
  show "reconnectAttempt (hook (step cfg (PlayerError m) p)) = int (Suc j)"
    using assms(1-4) lt by (simp add: handleError_def attemptReconnect_def Let_def)
  show "map snd (pending (hook (step cfg (PlayerError m) p))) =
           map snd (pending (hook p)) @ [reconnectDelay (settings cfg) * int j]"
    using assms(1-4) lt by (simp add: handleError_def attemptReconnect_def Let_def)
  show "console (hook (step cfg (PlayerError m) p)) =
           console (hook p) @ [Reconnecting (reconnectDelay (settings cfg) * int j) (int j + 1)
                                 (reconnectAttempts (settings cfg))]"
    using assms(1-4) lt by (simp add: handleError_def attemptReconnect_def Let_def)
qed

text \<open>One error signal, with no attempt left: nothing is scheduled.\<close>

lemma step_error_gives_up:
  assumes "enabled cfg" "autoReconnect (settings cfg)" "mounted (hook p)"
    and "reconnectAttempt (hook p) = int j" "nat (reconnectAttempts (settings cfg)) \<le> j"
  shows "mounted (hook (step cfg (PlayerError m) p))"
    and "reconnectAttempt (hook (step cfg (PlayerError m) p)) = int j"
    and "pending (hook (step cfg (PlayerError m) p)) = pending (hook p)"
    and "console (hook (step cfg (PlayerError m) p)) = console (hook p) @ [MaxReached]"
proof -
  from assms(5) have ge: "reconnectAttempts (settings cfg) \<le> int j" by linarith
  show "mounted (hook (step cfg (PlayerError m) p))"
    using assms(3) by (simp add: handleError_def)
  show "reconnectAttempt (hook (step cfg (PlayerError m) p)) = int j"
    using assms(1-4) ge by (simp add: handleError_def attemptReconnect_def Let_def)
  show "pending (hook (step cfg (PlayerError m) p)) = pending (hook p)"
    using assms(1-4) ge by (simp add: handleError_def attemptReconnect_def Let_def)
  show "console (hook (step cfg (PlayerError m) p)) = console (hook p) @ [MaxReached]"
    using assms(1-4) ge by (simp add: handleError_def attemptReconnect_def Let_def)
qed

lemma errors_pending:
  assumes en: "enabled cfg" "autoReconnect (settings cfg)"
  shows "mounted (hook p) \<Longrightarrow> reconnectAttempt (hook p) = int j \<Longrightarrow>
     map snd (pending (hook (run cfg (map PlayerError ms) p))) =
       map snd (pending (hook p)) @
       map (\<lambda>i. reconnectDelay (settings cfg) * int i)
         [j..<max j (min (j + length ms) (nat (reconnectAttempts (settings cfg))))]"
proof (induction ms arbitrary: p j)
  case Nil
  then show ?case by simp
next
  case (Cons m ms)
  define M where "M = nat (reconnectAttempts (settings cfg))"
  define k where "k = length ms"
  define q where "q = step cfg (PlayerError m) p"
  have r: "run cfg (map PlayerError (m # ms)) p = run cfg (map PlayerError ms) q"
    unfolding q_def by (simp del: step.simps)
  have l: "length (m # ms) = Suc k" by (simp add: k_def)
  show ?case
  proof (cases "j < M")
    case True
    note s = step_error_schedules [OF en Cons.prems True [unfolded M_def], of m, folded q_def]
    have u: "max j (min (j + Suc k) M) = max (Suc j) (min (Suc j + k) M)"
      using True by simp
    have "j < max (Suc j) (min (Suc j + k) M)" by simp
    then have upt: "[j..<max (Suc j) (min (Suc j + k) M)]
                    = j # [Suc j..<max (Suc j) (min (Suc j + k) M)]"
      by (rule upt_conv_Cons)
    show ?thesis
      unfolding r l M_def [symmetric] u upt
      using Cons.IH [OF s(1) s(2), folded M_def k_def] s(3)
      by simp
  next
    case False
    then have ge: "M \<le> j" by simp
    note s = step_error_gives_up [OF en Cons.prems ge [unfolded M_def], of m, folded q_def]
    have u: "max j (min (j + Suc k) M) = j" "max j (min (j + k) M) = j"
      using False by simp_all
    show ?thesis
      unfolding r l M_def [symmetric] u
      using Cons.IH [OF s(1) s(2), folded M_def k_def] s(3)
      unfolding u by simp
  qed
qed

text \<open>
  Claim C1, as amended. The claim gives the \<open>n\<close>-th reconnection the delay
  \<open>baseDelay * n\<close>. The code multiplies by the attempt counter as it stands when
  \<open>attemptReconnect\<close> is called, before the increment: with auto-reconnection on,
  consecutive error signals on a fresh player leave the timeouts of delays
  \<open>reconnectDelay * 0\<close>, \<open>reconnectDelay * 1\<close>, ... pending, one for each of the first
  \<open>reconnectAttempts\<close> signals and none for a later one. So the \<open>n\<close>-th reconnection
  (\<open>1 \<le> n \<le> reconnectAttempts\<close>) is delayed by \<open>reconnectDelay * (n - 1)\<close>.
\<close>

theorem consecutive_errors_delays:
  assumes "enabled cfg" "autoReconnect (settings cfg)"
  shows "map snd (pending (hook (run cfg (map PlayerError ms) initialPlayer)))
         = map (\<lambda>i. reconnectDelay (settings cfg) * int i)
               [0..<min (length ms) (nat (reconnectAttempts (settings cfg)))]"
  using errors_pending [OF assms, of initialPlayer 0 ms]
  by (simp add: initialPlayer_def initialHook_def)

text \<open>With the default settings, four error signals: three timeouts, the first immediate.\<close>

theorem consecutive_errors_delays_witness:
  "enabled defaultConfig \<and> autoReconnect (settings defaultConfig) \<and>
   map snd (pending (hook (run defaultConfig
      (map PlayerError [''Playback error occurred'', ''e2'', ''e3'', ''e4'']) initialPlayer)))
     = [0, 5000, 10000]"
proof -
  have en: "enabled defaultConfig" "autoReconnect (settings defaultConfig)"
    by (simp_all add: defaultConfig_def defaultSettings_def)
  have "[0..<min (length [''Playback error occurred'', ''e2'', ''e3'', ''e4''])
               (nat (reconnectAttempts (settings defaultConfig)))] = [0, 1, 2]"
    by (simp add: defaultConfig_def defaultSettings_def upt_conv_Cons)
  then have "map snd (pending (hook (run defaultConfig
      (map PlayerError [''Playback error occurred'', ''e2'', ''e3'', ''e4'']) initialPlayer)))
     = map (\<lambda>i. reconnectDelay (settings defaultConfig) * int i) [0, 1, 2]"
    using consecutive_errors_delays [OF en, of "[''Playback error occurred'', ''e2'', ''e3'', ''e4'']"]
    by (simp only:)
  then show ?thesis
    using en by (simp add: defaultConfig_def defaultSettings_def)
qed

text \<open>
  The claim's own scenario, three error signals with the default settings: the delays
  are not 5000 and 10000 with no third one, but 0, 5000 and 10000.
\<close>

theorem three_errors_delays_counterexample:
  "map snd (pending (hook (run defaultConfig (replicate 3 (PlayerError ''Playback error occurred''))
      initialPlayer))) = [0, 5000, 10000]
   \<and> map snd (pending (hook (run defaultConfig (replicate 3 (PlayerError ''Playback error occurred''))
      initialPlayer)))
     \<noteq> [reconnectDelay defaultSettings * 1, reconnectDelay defaultSettings * 2]"
  by (simp add: numeral_3_eq_3 defaultConfig_def defaultSettings_def initialPlayer_def
      initialHook_def handleError_def attemptReconnect_def Let_def)

text \<open>
  An event that is neither an error signal, nor the playing signal, nor the unmounting
  leaves the counter, the console and the mounted flag as they are.
\<close>

lemma step_other_event:
  assumes "\<not> isErrorSignal e" "e \<noteq> PlayerStateChange ''playing''" "e \<noteq> Unmount"
  shows "mounted (hook (step cfg e p)) = mounted (hook p)"
    and "reconnectAttempt (hook (step cfg e p)) = reconnectAttempt (hook p)"
    and "console (hook (step cfg e p)) = console (hook p)"
  using assms
  by (cases e; simp add: handleStateChange_def handleBuffering_def timerFires_def Let_def)+

lemma errors_console:
  assumes en: "enabled cfg" "autoReconnect (settings cfg)"
  shows "mounted (hook p) \<Longrightarrow> reconnectAttempt (hook p) = int j \<Longrightarrow>
     \<forall>e\<in>set evs. e \<noteq> PlayerStateChange ''playing'' \<and> e \<noteq> Unmount \<Longrightarrow>
     k = length (filter isErrorSignal evs) \<Longrightarrow>
     M = nat (reconnectAttempts (settings cfg)) \<Longrightarrow>
     console (hook (run cfg evs p)) =
       console (hook p) @ attemptLines (settings cfg) j (max j (min (j + k) M))
         @ replicate (j + k - max j (min (j + k) M)) MaxReached
     \<and> reconnectAttempt (hook (run cfg evs p)) = int (max j (min (j + k) M))"
proof (induction evs arbitrary: p j k)
  case Nil
  then show ?case by (simp add: attemptLines_def)
next
  case (Cons e evs)
  define q where "q = step cfg e p"
  have r: "run cfg (e # evs) p = run cfg evs q"
    unfolding q_def by (simp del: step.simps)
  have rest: "\<forall>e\<in>set evs. e \<noteq> PlayerStateChange ''playing'' \<and> e \<noteq> Unmount"
    using Cons.prems(3) by simp
  have e: "e \<noteq> PlayerStateChange ''playing''" "e \<noteq> Unmount"
    using Cons.prems(3) by simp_all
  show ?case
  proof (cases "isErrorSignal e")
    case False
    note s = step_other_event [OF False e, of cfg p, folded q_def]
    have k: "k = length (filter isErrorSignal evs)"
      using Cons.prems(4) False by simp
    have m: "mounted (hook q)" using s(1) Cons.prems(1) by simp
    have a: "reconnectAttempt (hook q) = int j" using s(2) Cons.prems(2) by simp
    show ?thesis
      unfolding r using Cons.IH [OF m a rest k Cons.prems(5)] s(3) by simp
  next
    case True
    then obtain m where em: "e = PlayerError m" by (cases e) simp_all
    obtain k' where k': "k = Suc k'" "k' = length (filter isErrorSignal evs)"
      using Cons.prems(4) True by simp
    show ?thesis
    proof (cases "j < M")
      case lt: True
      note s = step_error_schedules
                 [OF en Cons.prems(1,2) lt [unfolded Cons.prems(5)], of m, folded em, folded q_def]
      define U where "U = max (Suc j) (min (Suc j + k') M)"
      have u: "max j (min (j + Suc k') M) = U"
        using lt unfolding U_def by simp
      have "j < U" unfolding U_def by simp
      then have al: "attemptLines (settings cfg) j U =
          Reconnecting (reconnectDelay (settings cfg) * int j) (int j + 1)
             (reconnectAttempts (settings cfg)) # attemptLines (settings cfg) (Suc j) U"
        by (simp add: attemptLines_def upt_conv_Cons)
      have jk: "j + Suc k' - U = Suc j + k' - U" by simp
      note ih = Cons.IH [OF s(1) s(2) rest k'(2) Cons.prems(5), folded U_def]
      show ?thesis
        unfolding r k'(1) u al jk
        using ih s(4) by simp
    next
      case ge: False
      then have ge': "nat (reconnectAttempts (settings cfg)) \<le> j"
        using Cons.prems(5) by simp
      note s = step_error_gives_up
                 [OF en Cons.prems(1,2) ge', of m, folded em, folded q_def]
      have u: "max j (min (j + k) M) = j" "max j (min (j + k') M) = j"
        using ge by simp_all
      have rep: "replicate (j + k - j) MaxReached = MaxReached # replicate (j + k' - j) MaxReached"
        using k'(1) by simp
      show ?thesis
        unfolding r u rep
        using Cons.IH [OF s(1) s(2) rest k'(2) Cons.prems(5)] s(4)
        unfolding u by (simp add: attemptLines_def)
    qed
  qed
qed

text \<open>A component stays mounted as long as it is not unmounted.\<close>

lemma step_mounted:
  assumes "e \<noteq> Unmount" "mounted (hook p)"
  shows "mounted (hook (step cfg e p))"
  using assms
  by (cases e)
     (simp_all add: handleStateChange_def handleError_def handleBuffering_def timerFires_def
        resetReconnect_def clearTimeout_def Let_def split: option.split)

lemma run_mounted:
  "\<forall>e\<in>set evs. e \<noteq> Unmount \<Longrightarrow> mounted (hook p) \<Longrightarrow> mounted (hook (run cfg evs p))"
proof (induction evs arbitrary: p)
  case Nil
  then show ?case by simp
next
  case (Cons e evs)
  have "mounted (hook (step cfg e p))"
    using Cons.prems by (intro step_mounted) simp_all
  then have "mounted (hook (run cfg evs (step cfg e p)))"
    using Cons.prems(1) by (intro Cons.IH) simp_all
  then show ?case by (simp del: step.simps)
qed

text \<open>
  Claim C2, as amended. Auto-reconnection is on. Take any events from the initial
  player (where the counter is 0) with neither a playing signal nor an unmounting among
  them, \<open>k\<close> of them error signals, and one more error signal after them. If \<open>k\<close> is
  less than \<open>reconnectAttempts\<close>, that signal schedules a reconnection: one more timeout
  is pending, with the delay \<open>reconnectDelay * k\<close>, the ref holds it, \<open>isReconnecting\<close>
  is set and the line of attempt \<open>k + 1\<close> is written. Otherwise it gives up: no timeout is
  added, the ref is as before, \<open>isReconnecting\<close> is cleared and the line
  \<open>Max reconnection attempts reached\<close> is written. So each of the first
  \<open>reconnectAttempts\<close> error signals schedules a reconnection, and it is the next one,
  the \<open>reconnectAttempts + 1\<close>-th, that first gives up, as every later one does.
\<close>

theorem next_error_schedules_or_gives_up:
  assumes "enabled cfg" "autoReconnect (settings cfg)"
    and "\<forall>e\<in>set evs. e \<noteq> PlayerStateChange ''playing'' \<and> e \<noteq> Unmount"
    and "k = length (filter isErrorSignal evs)"
    and "p = run cfg evs initialPlayer"
    and "q = run cfg (evs @ [PlayerError m]) initialPlayer"
  shows "(k < nat (reconnectAttempts (settings cfg)) \<longrightarrow>
            pending (hook q) = pending (hook p)
              @ [(nextTimerId (hook p), reconnectDelay (settings cfg) * int k)]
          \<and> reconnectTimerRef (hook q) = Some (nextTimerId (hook p))
          \<and> isReconnecting (hook q)
          \<and> console (hook q) = console (hook p)
              @ [Reconnecting (reconnectDelay (settings cfg) * int k) (int k + 1)
                   (reconnectAttempts (settings cfg))])
     \<and> (nat (reconnectAttempts (settings cfg)) \<le> k \<longrightarrow>
            pending (hook q) = pending (hook p)
          \<and> reconnectTimerRef (hook q) = reconnectTimerRef (hook p)
          \<and> \<not> isReconnecting (hook q)
          \<and> console (hook q) = console (hook p) @ [MaxReached])"
proof -
  define M where "M = nat (reconnectAttempts (settings cfg))"
  have i: "mounted (hook initialPlayer)" "reconnectAttempt (hook initialPlayer) = int 0"
    by (simp_all add: initialPlayer_def initialHook_def)
  have mp: "mounted (hook p)"
    unfolding assms(5) using assms(3) i(1) by (intro run_mounted) simp_all
  have "reconnectAttempt (hook (run cfg evs initialPlayer)) = int (max 0 (min (0 + k) M))"
    using errors_console [OF assms(1,2) i assms(3,4) M_def] by simp
  then have a: "reconnectAttempt (hook p) = int (min k M)"
    unfolding assms(5) by simp
  have q: "hook q = attemptReconnect (enabled cfg) (settings cfg) (int (min k M)) (hook p)"
    unfolding assms(5,6) using mp a
    by (simp add: run_append handleError_def assms(5))
  show ?thesis
  proof (intro conjI impI)
    assume lt: "k < nat (reconnectAttempts (settings cfg))"
    then have c: "int (min k M) = int k" "int k < reconnectAttempts (settings cfg)"
      unfolding M_def by simp_all
    show "pending (hook q) = pending (hook p)
              @ [(nextTimerId (hook p), reconnectDelay (settings cfg) * int k)]"
      unfolding q c(1) using c(2) assms(1,2) by (simp add: attemptReconnect_def Let_def)
    show "reconnectTimerRef (hook q) = Some (nextTimerId (hook p))"
      unfolding q c(1) using c(2) assms(1,2) by (simp add: attemptReconnect_def Let_def)
    show "isReconnecting (hook q)"
      unfolding q c(1) using c(2) assms(1,2) by (simp add: attemptReconnect_def Let_def)
    show "console (hook q) = console (hook p)
              @ [Reconnecting (reconnectDelay (settings cfg) * int k) (int k + 1)
                   (reconnectAttempts (settings cfg))]"
      unfolding q c(1) using c(2) assms(1,2) by (simp add: attemptReconnect_def Let_def)
  next
    assume ge: "nat (reconnectAttempts (settings cfg)) \<le> k"
    then have c: "int (min k M) = int M" "reconnectAttempts (settings cfg) \<le> int M"
      unfolding M_def by simp_all
    show "pending (hook q) = pending (hook p)"
      unfolding q c(1) using c(2) assms(1,2) by (simp add: attemptReconnect_def Let_def)
    show "reconnectTimerRef (hook q) = reconnectTimerRef (hook p)"
      unfolding q c(1) using c(2) assms(1,2) by (simp add: attemptReconnect_def Let_def)
    show "\<not> isReconnecting (hook q)"
      unfolding q c(1) using c(2) assms(1,2) by (simp add: attemptReconnect_def Let_def)
    show "console (hook q) = console (hook p) @ [MaxReached]"
      unfolding q c(1) using c(2) assms(1,2) by (simp add: attemptReconnect_def Let_def)
  qed
qed

text \<open>
  Default settings (three attempts, 5000 ms). After an error, the expiry of its timeout
  and a second error, a third error schedules the timeout 3 with the delay 10000 ms; a
  fourth error schedules nothing, clears the flag and writes the line of giving up.
\<close>

theorem next_error_schedules_or_gives_up_witness:
  "pending (hook (run defaultConfig
      ([PlayerError ''e'', TimerFires 1, PlayerError ''e''] @ [PlayerError ''e'']) initialPlayer))
     = [(2, 5000), (3, 10000)]
   \<and> reconnectTimerRef (hook (run defaultConfig
      ([PlayerError ''e'', TimerFires 1, PlayerError ''e''] @ [PlayerError ''e'']) initialPlayer))
     = Some 3
   \<and> isReconnecting (hook (run defaultConfig
      ([PlayerError ''e'', TimerFires 1, PlayerError ''e''] @ [PlayerError ''e'']) initialPlayer))
   \<and> console (hook (run defaultConfig
      ([PlayerError ''e'', TimerFires 1, PlayerError ''e''] @ [PlayerError ''e'']) initialPlayer))
     = [Reconnecting 0 1 3, Reconnecting 5000 2 3, Reconnecting 10000 3 3]
   \<and> pending (hook (run defaultConfig
      ([PlayerError ''e'', TimerFires 1, PlayerError ''e'', PlayerError ''e''] @ [PlayerError ''e''])
      initialPlayer))
     = [(2, 5000), (3, 10000)]
   \<and> \<not> isReconnecting (hook (run defaultConfig
      ([PlayerError ''e'', TimerFires 1, PlayerError ''e'', PlayerError ''e''] @ [PlayerError ''e''])
      initialPlayer))
   \<and> console (hook (run defaultConfig
      ([PlayerError ''e'', TimerFires 1, PlayerError ''e'', PlayerError ''e''] @ [PlayerError ''e''])
      initialPlayer))
     = [Reconnecting 0 1 3, Reconnecting 5000 2 3, Reconnecting 10000 3 3, MaxReached]"
proof -
  define evs2 where "evs2 = [PlayerError ''e'', TimerFires 1, PlayerError ''e'']"
  define evs3 where
    "evs3 = [PlayerError ''e'', TimerFires 1, PlayerError ''e'', PlayerError ''e'']"
  define p2 where "p2 = run defaultConfig evs2 initialPlayer"
  define q2 where "q2 = run defaultConfig (evs2 @ [PlayerError ''e'']) initialPlayer"
  define p3 where "p3 = run defaultConfig evs3 initialPlayer"
  define q3 where "q3 = run defaultConfig (evs3 @ [PlayerError ''e'']) initialPlayer"
  have s: "enabled defaultConfig" "autoReconnect (settings defaultConfig)"
    by (simp_all add: defaultConfig_def defaultSettings_def)
  have v: "reconnectAttempts (settings defaultConfig) = 3"
    "reconnectDelay (settings defaultConfig) = 5000"
    by (simp_all add: defaultConfig_def defaultSettings_def)
  have e2: "\<forall>e\<in>set evs2. e \<noteq> PlayerStateChange ''playing'' \<and> e \<noteq> Unmount"
    "2 = length (filter isErrorSignal evs2)"
    by (simp_all add: evs2_def)
  have e3: "\<forall>e\<in>set evs3. e \<noteq> PlayerStateChange ''playing'' \<and> e \<noteq> Unmount"
    "3 = length (filter isErrorSignal evs3)"
    by (simp_all add: evs3_def)
  have h2: "pending (hook p2) = [(2, 5000)]" "nextTimerId (hook p2) = 3"
    "console (hook p2) = [Reconnecting 0 1 3, Reconnecting 5000 2 3]"
    by (simp_all add: p2_def evs2_def defaultConfig_def defaultSettings_def initialPlayer_def
        initialHook_def handleError_def attemptReconnect_def timerFires_def Let_def)
  have h3: "pending (hook p3) = [(2, 5000), (3, 10000)]"
    "console (hook p3) = [Reconnecting 0 1 3, Reconnecting 5000 2 3, Reconnecting 10000 3 3]"
    by (simp_all add: p3_def evs3_def defaultConfig_def defaultSettings_def initialPlayer_def
        initialHook_def handleError_def attemptReconnect_def timerFires_def Let_def)
  note t2 = next_error_schedules_or_gives_up [OF s e2 p2_def q2_def]
  note t3 = next_error_schedules_or_gives_up [OF s e3 p3_def q3_def]
  have r2: "pending (hook q2) = [(2, 5000), (3, 10000)] \<and> reconnectTimerRef (hook q2) = Some 3
      \<and> isReconnecting (hook q2)
      \<and> console (hook q2) = [Reconnecting 0 1 3, Reconnecting 5000 2 3, Reconnecting 10000 3 3]"
    using t2 unfolding v h2 by simp
  have r3: "pending (hook q3) = [(2, 5000), (3, 10000)] \<and> \<not> isReconnecting (hook q3)
      \<and> console (hook q3)
          = [Reconnecting 0 1 3, Reconnecting 5000 2 3, Reconnecting 10000 3 3, MaxReached]"
    using t3 unfolding v h3 by simp
  show ?thesis
    using r2 r3 unfolding q2_def q3_def evs2_def evs3_def by blast
qed

text \<open>
  After exactly three error signals with the default settings the session has not given
  up: the third signal has scheduled a third reconnection, which is pending, and the
  line of giving up is not on the console.
\<close>

theorem third_error_still_retries_counterexample:
  "isReconnecting (hook (run defaultConfig (replicate 3 (PlayerError ''e'')) initialPlayer))
   \<and> length (pending (hook (run defaultConfig (replicate 3 (PlayerError ''e'')) initialPlayer))) = 3
   \<and> MaxReached \<notin> set (console (hook (run defaultConfig (replicate 3 (PlayerError ''e''))
        initialPlayer)))"
  by (simp add: numeral_3_eq_3 defaultConfig_def defaultSettings_def initialPlayer_def
      initialHook_def handleError_def attemptReconnect_def Let_def)

text \<open>
  The other half of the claim, that the counter never exceeds \<open>reconnectAttempts\<close>, is
  not part of the amended claim. The guard of \<open>attemptReconnect\<close> reads the counter of the
  render whereas the increment works on the state, so calls made from one render all
  pass the guard: with the default settings, the five calls of the test
  \<open>should respect max retry attempts\<close> leave the counter at 5, with five timeouts
  pending, where the test expects at most 3.
\<close>

lemma calls_in_one_render_exceed:
  "reconnectAttempt (callsInOneRender defaultConfig 5 initialHook) = 5
   \<and> length (pending (callsInOneRender defaultConfig 5 initialHook)) = 5"
  by (simp add: callsInOneRender_def eval_nat_numeral defaultConfig_def defaultSettings_def
      initialHook_def attemptReconnect_def Let_def)

text \<open>
  Claim C4. Whatever happened before, the playing signal, received by a mounted player,
  puts the player in the state \<open>playing\<close> with the attempt counter at 0 (and the
  reconnecting flag off): the value that the hook returns to the next render.
\<close>

theorem playing_resets_attempt:
  assumes "mounted (hook (run cfg evs p))"
  shows "playerState (run cfg (evs @ [PlayerStateChange ''playing'']) p) = ''playing''
     \<and> reconnectAttempt (hook (run cfg (evs @ [PlayerStateChange ''playing'']) p)) = 0
     \<and> \<not> isReconnecting (hook (run cfg (evs @ [PlayerStateChange ''playing'']) p))"
  using assms
  by (simp add: run_append handleStateChange_def resetReconnect_def clearTimeout_def Let_def
      split: option.split)

theorem playing_resets_attempt_witness:
  "mounted (hook (run defaultConfig [PlayerError ''e'', PlayerError ''e''] initialPlayer))
   \<and> reconnectAttempt (hook (run defaultConfig [PlayerError ''e'', PlayerError ''e''] initialPlayer)) = 2
   \<and> reconnectAttempt (hook (run defaultConfig
        ([PlayerError ''e'', PlayerError ''e''] @ [PlayerStateChange ''playing'']) initialPlayer)) = 0"
proof -
  have m: "mounted (hook (run defaultConfig [PlayerError ''e'', PlayerError ''e''] initialPlayer))"
    by (simp add: initialPlayer_def initialHook_def handleError_def)
  have a: "reconnectAttempt (hook (run defaultConfig [PlayerError ''e'', PlayerError ''e''] initialPlayer)) = 2"
    by (simp add: defaultConfig_def defaultSettings_def initialPlayer_def initialHook_def
        handleError_def attemptReconnect_def Let_def)
  show ?thesis
    using m a playing_resets_attempt [OF m] by simp
qed

text \<open>
  Claim C5: the code breaks it. \<open>attemptReconnect\<close> stores the new timeout in
  \<open>reconnectTimerRef\<close> without clearing the one the ref held, so after two error signals
  in a row the earlier timeout is pending but no longer known to the hook.
  \<open>resetReconnect\<close> and the cleanup on unmount clear the timeout in the ref only. In
  the run below the first reconnection has taken place, the second and the third are
  scheduled (delays 5000 and 10000); then the component unmounts, or the playing signal
  resets the hook. The timeout of the second is still pending, and when it expires
  \<open>onReconnect\<close> runs once more.
\<close>

theorem cancelled_timer_leaves_orphan:
  "pending (hook (run defaultConfig
      [PlayerError ''e'', TimerFires 1, PlayerError ''e'', PlayerError ''e'', Unmount] initialPlayer))
     = [(2, 5000)]
   \<and> reconnects (hook (run defaultConfig
      [PlayerError ''e'', TimerFires 1, PlayerError ''e'', PlayerError ''e'', Unmount] initialPlayer)) = 1
   \<and> reconnects (hook (run defaultConfig
      [PlayerError ''e'', TimerFires 1, PlayerError ''e'', PlayerError ''e'', Unmount, TimerFires 2]
      initialPlayer)) = 2
   \<and> pending (hook (run defaultConfig
      [PlayerError ''e'', TimerFires 1, PlayerError ''e'', PlayerError ''e'',
       PlayerStateChange ''playing''] initialPlayer))
     = [(2, 5000)]
   \<and> reconnects (hook (run defaultConfig
      [PlayerError ''e'', TimerFires 1, PlayerError ''e'', PlayerError ''e'',
       PlayerStateChange ''playing'', TimerFires 2] initialPlayer)) = 2"
  by (simp add: defaultConfig_def defaultSettings_def initialPlayer_def initialHook_def
      handleError_def handleStateChange_def attemptReconnect_def resetReconnect_def cleanup_def
      clearTimeout_def timerFires_def Let_def)

theorem cancelled_timer_leaves_orphan_witness:
  "reconnects (hook (run defaultConfig
      [PlayerError ''e'', TimerFires 1, PlayerError ''e'', PlayerError ''e'', Unmount, TimerFires 2]
      initialPlayer))
   = Suc (reconnects (hook (run defaultConfig
      [PlayerError ''e'', TimerFires 1, PlayerError ''e'', PlayerError ''e'', Unmount] initialPlayer)))"
  using cancelled_timer_leaves_orphan by simp

text \<open>
  What cancelling does achieve. When no timeout is pending but the one in
  \<open>reconnectTimerRef\<close>, as is the case while error signals do not follow one another
  faster than the timeouts expire, \<open>resetReconnect\<close> and the cleanup leave no timeout
  pending, and no expiry can run \<open>onReconnect\<close> afterwards.
\<close>

theorem sole_timer_cancelled:
  assumes "fst ` set (pending h) \<subseteq> set_option (reconnectTimerRef h)"
  shows "pending (resetReconnect h) = [] \<and> pending (cleanup h) = []
     \<and> timerFires i (resetReconnect h) = resetReconnect h
     \<and> timerFires i (cleanup h) = cleanup h"
proof (cases "reconnectTimerRef h")
  case None
  then have "pending h = []" using assms by simp
  then show ?thesis
    using None by (simp add: resetReconnect_def cleanup_def timerFires_def)
next
  case (Some j)
  then have "\<forall>t\<in>set (pending h). fst t = j" using assms by auto
  then have "filter (\<lambda>t. fst t \<noteq> j) (pending h) = []"
    by (simp add: filter_empty_conv)
  then show ?thesis
    using Some by (simp add: resetReconnect_def cleanup_def clearTimeout_def timerFires_def)
qed

theorem sole_timer_cancelled_witness:
  "pending (hook (run defaultConfig [PlayerError ''e''] initialPlayer)) = [(1, 0)]
   \<and> pending (cleanup (hook (run defaultConfig [PlayerError ''e''] initialPlayer))) = []
   \<and> pending (resetReconnect (hook (run defaultConfig [PlayerError ''e''] initialPlayer))) = []"
proof -
  have p: "pending (hook (run defaultConfig [PlayerError ''e''] initialPlayer)) = [(1, 0)]"
    "reconnectTimerRef (hook (run defaultConfig [PlayerError ''e''] initialPlayer)) = Some 1"
    by (simp_all add: defaultConfig_def defaultSettings_def initialPlayer_def initialHook_def
        handleError_def attemptReconnect_def Let_def)
  have "fst ` set (pending (hook (run defaultConfig [PlayerError ''e''] initialPlayer)))
          \<subseteq> set_option (reconnectTimerRef (hook (run defaultConfig [PlayerError ''e''] initialPlayer)))"
    unfolding p by simp
  from sole_timer_cancelled [OF this] p(1) show ?thesis by simp
qed

text \<open>
  Claim C10. With auto-reconnection disabled (the \<open>enabled\<close> option is false, or the
  \<open>autoReconnect\<close> setting is false), \<open>attemptReconnect\<close> changes nothing: no timeout is
  scheduled, and the attempt counter, the reconnecting flag, the timer ref and the console
  are as before.
\<close>

theorem attemptReconnect_disabled_noop:
  "\<not> en \<or> \<not> autoReconnect s \<Longrightarrow> attemptReconnect en s captured h = h"
  by (simp add: attemptReconnect_def)

theorem attemptReconnect_disabled_noop_witness:
  "attemptReconnect True (defaultSettings\<lparr>autoReconnect := False\<rparr>) 0 initialHook = initialHook
   \<and> attemptReconnect False defaultSettings 0 initialHook = initialHook"
  using attemptReconnect_disabled_noop [of True "defaultSettings\<lparr>autoReconnect := False\<rparr>" 0 initialHook]
        attemptReconnect_disabled_noop [of False defaultSettings 0 initialHook]
  by (simp add: defaultSettings_def)

section \<open>Properties of the Picture-in-Picture gate\<close>

text \<open>
  Claim C3, as amended. \<open>startPiP\<close> refuses, returning \<open>false\<close> and calling nothing,
  exactly on the two flags: when \<open>isSupported\<close> is false or \<open>isPossible\<close> is false. It
  does not look at the session: with both flags set, the answer and the calls are the
  same for every state \<open>q\<close> of the player; the start command goes to the view whenever
  one is attached, and the answer is \<open>true\<close> unless that call is rejected.
\<close>

theorem startPiP_gate:
  "(\<not> isSupported (pipStatus scr) \<or> \<not> isPossible (pipStatus scr) \<longrightarrow>
      startPiP (pipStatus scr) (viewRef scr) outcome = (False, []))
   \<and> (isSupported (pipStatus scr) \<and> isPossible (pipStatus scr) \<longrightarrow>
      startPiP (pipStatus (scr\<lparr>player := q\<rparr>)) (viewRef (scr\<lparr>player := q\<rparr>)) outcome
        = startPiP (pipStatus scr) (viewRef scr) outcome
      \<and> snd (startPiP (pipStatus scr) (viewRef scr) outcome)
          = (if viewRef scr then [StartPictureInPicture] else [])
      \<and> fst (startPiP (pipStatus scr) (viewRef scr) outcome)
          = (viewRef scr \<longrightarrow> outcome = Resolves))"
  by (cases outcome) (simp_all add: startPiP_def)

theorem startPiP_gate_witness:
  "startPiP \<lparr>isActive = False, isPossible = False, isSupported = True\<rparr> True Resolves = (False, [])
   \<and> startPiP \<lparr>isActive = False, isPossible = True, isSupported = False\<rparr> True Resolves = (False, [])
   \<and> snd (startPiP \<lparr>isActive = False, isPossible = True, isSupported = True\<rparr> True Resolves)
       = [StartPictureInPicture]"
  using startPiP_gate [of "\<lparr>player = initialPlayer,
            pipStatus = \<lparr>isActive = False, isPossible = False, isSupported = True\<rparr>,
            viewRef = True\<rparr>" Resolves initialPlayer]
        startPiP_gate [of "\<lparr>player = initialPlayer,
            pipStatus = \<lparr>isActive = False, isPossible = True, isSupported = False\<rparr>,
            viewRef = True\<rparr>" Resolves initialPlayer]
        startPiP_gate [of "\<lparr>player = initialPlayer,
            pipStatus = \<lparr>isActive = False, isPossible = True, isSupported = True\<rparr>,
            viewRef = True\<rparr>" Resolves initialPlayer]
  by simp

text \<open>
  A screen whose player has not received any signal yet (its state is the initial
  \<open>loading\<close>, no session is playing or paused) and whose hook still holds
  \<open>isPossible = true\<close>: the request is not refused, and the start command is issued.
\<close>

theorem startPiP_idle_counterexample:
  "playerState (player \<lparr>player = initialPlayer,
       pipStatus = \<lparr>isActive = False, isPossible = True, isSupported = True\<rparr>,
       viewRef = True\<rparr>) = ''loading''
   \<and> startPiP (pipStatus \<lparr>player = initialPlayer,
       pipStatus = \<lparr>isActive = False, isPossible = True, isSupported = True\<rparr>,
       viewRef = True\<rparr>) True Resolves = (True, [StartPictureInPicture])"
  by (simp add: startPiP_def initialPlayer_def)

section \<open>Properties of the URL helpers\<close>

subsection \<open>Decimal digits\<close>

lemma digit_table_digit: "d < 10 \<Longrightarrow> asciiDigit (''0123456789'' ! d)"
proof -
  assume "d < 10"
  then have "d \<in> {0, 1, 2, 3, 4, 5, 6, 7, 8, 9}" by auto
  then show ?thesis
    by (auto simp: asciiDigit_def charCode_def)
qed

lemma digit_table_value: "d < 10 \<Longrightarrow> digitValue (''0123456789'' ! d) = d"
proof -
  assume "d < 10"
  then have "d \<in> {0, 1, 2, 3, 4, 5, 6, 7, 8, 9}" by auto
  then show ?thesis
    by (auto simp: digitValue_def asciiDigit_def charCode_def)
qed

lemma decimalDigits_digits: "list_all asciiDigit (decimalDigits n)"
proof (induction n rule: decimalDigits.induct)
  case (1 n)
  show ?case
  proof (cases "n < 10")
    case True
    then show ?thesis
      by (subst decimalDigits.simps) (simp add: digit_table_digit)
  next
    case False
    then have "list_all asciiDigit (decimalDigits (n div 10))" by (rule 1)
    moreover have "asciiDigit (''0123456789'' ! (n mod 10))"
      by (rule digit_table_digit) simp
    ultimately show ?thesis
      using False by (subst decimalDigits.simps) simp
  qed
qed

lemma decimalDigits_nonempty: "decimalDigits n \<noteq> []"
  by (subst decimalDigits.simps) simp

lemma digitsValue_snoc: "digitsValue r (ds @ [c]) = digitsValue r ds * r + digitValue c"
  by (simp add: digitsValue_def)

lemma digitsValue_decimalDigits: "digitsValue 10 (decimalDigits n) = n"
proof (induction n rule: decimalDigits.induct)
  case (1 n)
  show ?case
  proof (cases "n < 10")
    case True
    then show ?thesis
      by (subst decimalDigits.simps) (simp add: digitsValue_def digit_table_value)
  next
    case False
    then have "digitsValue 10 (decimalDigits (n div 10)) = n div 10" by (rule 1)
    moreover have "digitValue (''0123456789'' ! (n mod 10)) = n mod 10"
      by (rule digit_table_value) simp
    ultimately show ?thesis
      using False by (subst decimalDigits.simps) (simp add: digitsValue_snoc)
  qed
qed


lemma asciiDigit_facts:
  assumes "asciiDigit c"
  shows "\<not> isWhiteSpace c" "c \<noteq> CHR ''-''" "c \<noteq> CHR ''+''" "c \<noteq> CHR ''x''" "c \<noteq> CHR ''X''"
    and "digitValue c < 10"
  using assms by (auto simp: asciiDigit_def isWhiteSpace_def digitValue_def charCode_def)

lemma parseInt_digits:
  assumes "list_all asciiDigit ds" "ds \<noteq> []"
  shows "parseInt ds = Num (int (digitsValue 10 ds))"
proof -
  from assms obtain c r where ds: "ds = c # r" by (cases ds) auto
  have c: "asciiDigit c" and r: "list_all asciiDigit r" using assms(1) ds by simp_all
  have nohex: "(case ds of a # b # _ \<Rightarrow> a = CHR ''0'' \<and> (b = CHR ''x'' \<or> b = CHR ''X'') | _ \<Rightarrow> False) = False"
    using r asciiDigit_facts(4,5) unfolding ds by (cases r) auto
  have all: "takeWhile (\<lambda>c. digitValue c < 10) ds = ds"
    using assms(1) asciiDigit_facts(6) by (simp add: takeWhile_eq_all_conv list_all_iff)
  have s0: "dropWhile isWhiteSpace ds = ds"
    unfolding ds using asciiDigit_facts(1) [OF c] by simp
  show ?thesis
    unfolding parseInt_def s0 Let_def
    using asciiDigit_facts(2,3) [OF c] nohex all assms(2)
    by (simp add: ds)
qed

lemma parseInt_decimalDigits: "parseInt (decimalDigits n) = Num (int n)"
  using parseInt_digits [OF decimalDigits_digits decimalDigits_nonempty, of n]
  by (simp add: digitsValue_decimalDigits)

subsection \<open>Strings that the parser leaves as they are\<close>










subsection \<open>Paths\<close>















subsection \<open>The builders\<close>

text \<open>
  Claim C7. \<open>buildTapoRTSPUrl\<close> ends the URL with \<open>/stream2\<close> when \<open>useSubStream\<close> is
  true and with \<open>/stream1\<close> when it is false or absent; what precedes the path is the
  same in both cases. For the camera of the claim the URL is
  \<open>rtsp://admin:p@192.168.1.100:554/stream1\<close>, character for character.
\<close>

theorem buildTapoRTSPUrl_stream:
  "buildTapoRTSPUrl config options =
     ''rtsp://'' @ username config @ '':'' @ password config @ ''@'' @ ipAddress config @ '':''
       @ numberToString (case port config of None \<Rightarrow> Num 554 | Some n \<Rightarrow> n)
       @ (if useSubStream options = Some True then ''/stream2'' else ''/stream1'')
   \<and> buildTapoRTSPUrl
        \<lparr>username = ''admin'', password = ''p'', ipAddress = ''192.168.1.100'',
         port = Some (Num 554), streamPath = None, protocol = None\<rparr>
        \<lparr>useSubStream = Some False, useTCP = None\<rparr>
      = ''rtsp://admin:p@192.168.1.100:554/stream1''"
  by (cases "useSubStream options")
     (simp_all add: buildTapoRTSPUrl_def numberToString_def decimalDigits.simps)

theorem buildTapoRTSPUrl_stream_witness:
  "buildTapoRTSPUrl
     \<lparr>username = ''admin'', password = ''p'', ipAddress = ''192.168.1.100'',
      port = None, streamPath = None, protocol = None\<rparr>
     \<lparr>useSubStream = Some True, useTCP = None\<rparr>
   = ''rtsp://admin:p@192.168.1.100:554/stream2''"
  using buildTapoRTSPUrl_stream
          [of "\<lparr>username = ''admin'', password = ''p'', ipAddress = ''192.168.1.100'',
                port = None, streamPath = None, protocol = None\<rparr>"
              "\<lparr>useSubStream = Some True, useTCP = None\<rparr>"]
  by (simp add: numberToString_def decimalDigits.simps)

text \<open>
  Claim C6, as amended. The repository has two builders. \<open>buildRTSPUrl\<close> uses the
  explicit \<open>streamPath\<close> of the configuration and never looks at \<open>useSubStream\<close>.
  \<open>buildTapoRTSPUrl\<close> never looks at \<open>streamPath\<close>: it builds what it builds for the same
  configuration without one, \<open>stream1\<close> or \<open>stream2\<close> as \<open>useSubStream\<close> says.
\<close>

theorem explicit_path_by_builder:
  assumes "streamPath config = Some s"
  shows "buildRTSPUrl config options =
           ''rtsp://'' @ username config @ '':'' @ password config @ ''@'' @ ipAddress config
             @ '':'' @ numberToString (case port config of None \<Rightarrow> Num 554 | Some n \<Rightarrow> n)
             @ ''/'' @ s
         \<and> buildTapoRTSPUrl config options = buildTapoRTSPUrl (config\<lparr>streamPath := None\<rparr>) options"
  using assms by (simp add: buildRTSPUrl_def buildTapoRTSPUrl_def)

theorem explicit_path_by_builder_witness:
  "buildRTSPUrl
     \<lparr>username = ''admin'', password = ''p'', ipAddress = ''192.168.1.100'',
      port = Some (Num 554), streamPath = Some ''h264/ch1'', protocol = None\<rparr>
     \<lparr>useSubStream = Some True, useTCP = None\<rparr>
   = ''rtsp://admin:p@192.168.1.100:554/h264/ch1''"
  using explicit_path_by_builder
          [of "\<lparr>username = ''admin'', password = ''p'', ipAddress = ''192.168.1.100'',
                port = Some (Num 554), streamPath = Some ''h264/ch1'', protocol = None\<rparr>"
              "''h264/ch1''" "\<lparr>useSubStream = Some True, useTCP = None\<rparr>"]
  by (simp add: numberToString_def decimalDigits.simps)

text \<open>
  A configuration with the explicit path \<open>h264/ch1\<close>, given to \<open>buildTapoRTSPUrl\<close>: the
  URL does not have that path, but \<open>stream2\<close> or \<open>stream1\<close>, as \<open>useSubStream\<close> says.
\<close>

theorem buildTapoRTSPUrl_ignores_path_counterexample:
  "buildTapoRTSPUrl
     \<lparr>username = ''admin'', password = ''p'', ipAddress = ''192.168.1.100'',
      port = Some (Num 554), streamPath = Some ''h264/ch1'', protocol = None\<rparr>
     \<lparr>useSubStream = Some True, useTCP = None\<rparr>
   = ''rtsp://admin:p@192.168.1.100:554/stream2''
   \<and> buildTapoRTSPUrl
     \<lparr>username = ''admin'', password = ''p'', ipAddress = ''192.168.1.100'',
      port = Some (Num 554), streamPath = Some ''h264/ch1'', protocol = None\<rparr>
     \<lparr>useSubStream = Some False, useTCP = None\<rparr>
   \<noteq> ''rtsp://admin:p@192.168.1.100:554/h264/ch1''"
  by (simp add: buildTapoRTSPUrl_def numberToString_def decimalDigits.simps)

subsection \<open>Parsing\<close>

text \<open>
  What the constructor does with a string that has no colon, with a string that starts
  with a scheme and a colon, and with a port.
\<close>

lemma trim_subset: "set (trimC0ControlOrSpace s) \<subseteq> set s"
proof -
  have "set (dropWhile c0ControlOrSpace (rev (dropWhile c0ControlOrSpace s)))
          \<subseteq> set (rev (dropWhile c0ControlOrSpace s))"
    by (auto dest: set_dropWhileD)
  also have "\<dots> \<subseteq> set s"
    by (auto dest: set_dropWhileD)
  finally show ?thesis by (simp add: trimC0ControlOrSpace_def)
qed

lemma parseScheme_no_colon:
  assumes "CHR '':'' \<notin> set s"
  shows "parseScheme s = None"
proof (cases "dropWhile schemeChar s")
  case Nil
  show ?thesis
    unfolding parseScheme_def Nil by (simp split: list.split)
next
  case (Cons d rest)
  then have "d \<in> set s"
    by (metis list.set_intros(1) set_dropWhileD)
  then have "d \<noteq> CHR '':''" using assms by auto
  then show ?thesis
    unfolding parseScheme_def Cons by (simp split: list.split)
qed

lemma newURL_no_colon:
  assumes "CHR '':'' \<notin> set url"
  shows "newURL url = None"
proof -
  have "set (filter (\<lambda>c. \<not> asciiTabOrNewline c) (trimC0ControlOrSpace url)) \<subseteq> set url"
    using trim_subset [of url] by auto
  then have "CHR '':'' \<notin> set (filter (\<lambda>c. \<not> asciiTabOrNewline c) (trimC0ControlOrSpace url))"
    using assms by blast
  then have "parseScheme (filter (\<lambda>c. \<not> asciiTabOrNewline c) (trimC0ControlOrSpace url)) = None"
    by (rule parseScheme_no_colon)
  then show ?thesis
    unfolding newURL_def by simp
qed

lemma newURL_protocol:
  assumes "newURL url = Some u"
    and "parseScheme (filter (\<lambda>c. \<not> asciiTabOrNewline c) (trimC0ControlOrSpace url)) = Some (scheme, r)"
  shows "url_protocol u = scheme @ '':''"
  using assms by (auto simp: newURL_def split: option.splits if_splits)

lemma dropWhile_append_stop:
  "\<not> P y \<Longrightarrow> dropWhile P (xs @ y # ys) = dropWhile P xs @ y # ys"
  by (induction xs) simp_all

lemma scheme_char:
  assumes "schemeChar c"
  shows "\<not> asciiTabOrNewline c" "\<not> c0ControlOrSpace c" "c \<noteq> CHR '':''"
  using assms
  by (auto simp: schemeChar_def asciiAlpha_def asciiUpperAlpha_def asciiLowerAlpha_def
      asciiDigit_def asciiTabOrNewline_def c0ControlOrSpace_def charCode_def)

lemma colon_char:
  "\<not> asciiTabOrNewline (CHR '':'')" "\<not> c0ControlOrSpace (CHR '':'')" "\<not> schemeChar (CHR '':'')"
  by (simp_all add: schemeChar_def asciiAlpha_def asciiUpperAlpha_def asciiLowerAlpha_def
      asciiDigit_def asciiTabOrNewline_def c0ControlOrSpace_def charCode_def)

text \<open>A string that begins with a scheme and a colon keeps them when it is normalised.\<close>

lemma parseScheme_scheme:
  assumes "asciiAlpha a" "list_all schemeChar sch"
  shows "\<exists>r. parseScheme (filter (\<lambda>c. \<not> asciiTabOrNewline c)
                  (trimC0ControlOrSpace (a # sch @ CHR '':'' # rest)))
               = Some (map asciiLowercase (a # sch), r)"
proof -
  have a: "schemeChar a" using assms(1) by (simp add: schemeChar_def)
  have all: "\<forall>c\<in>set (a # sch). schemeChar c"
    using a assms(2) by (simp add: list_all_iff)
  define t where "t = rev (dropWhile c0ControlOrSpace (rev rest))"
  have "dropWhile c0ControlOrSpace (a # sch @ CHR '':'' # rest) = a # sch @ CHR '':'' # rest"
    using scheme_char(2) [OF a] by simp
  moreover have "rev (a # sch @ CHR '':'' # rest) = rev rest @ CHR '':'' # rev (a # sch)"
    by simp
  moreover have "dropWhile c0ControlOrSpace (rev rest @ CHR '':'' # rev (a # sch))
                   = dropWhile c0ControlOrSpace (rev rest) @ CHR '':'' # rev (a # sch)"
    using colon_char(2) by (rule dropWhile_append_stop)
  ultimately have trim: "trimC0ControlOrSpace (a # sch @ CHR '':'' # rest) = (a # sch) @ CHR '':'' # t"
    by (simp add: trimC0ControlOrSpace_def t_def)
  have "filter (\<lambda>c. \<not> asciiTabOrNewline c) (a # sch) = a # sch"
    using all scheme_char(1) by (intro filter_True) blast
  then have norm: "filter (\<lambda>c. \<not> asciiTabOrNewline c) ((a # sch) @ CHR '':'' # t)
                = (a # sch) @ CHR '':'' # filter (\<lambda>c. \<not> asciiTabOrNewline c) t"
    using colon_char(1) by (simp only: filter_append filter.simps if_True simp_thms)
  have tw: "takeWhile schemeChar ((a # sch) @ CHR '':'' # filter (\<lambda>c. \<not> asciiTabOrNewline c) t) = a # sch"
    using all colon_char(3) by (simp add: takeWhile_tail)
  have dw: "dropWhile schemeChar ((a # sch) @ CHR '':'' # filter (\<lambda>c. \<not> asciiTabOrNewline c) t)
              = CHR '':'' # filter (\<lambda>c. \<not> asciiTabOrNewline c) t"
    using all colon_char(3) by (simp add: dropWhile_append3)
  have "parseScheme ((a # sch) @ CHR '':'' # filter (\<lambda>c. \<not> asciiTabOrNewline c) t)
          = Some (map asciiLowercase (a # sch), filter (\<lambda>c. \<not> asciiTabOrNewline c) t)"
    unfolding parseScheme_def tw dw using assms(1) by simp
  then show ?thesis
    unfolding trim norm by blast
qed

lemma parseRTSPUrl_other_scheme:
  assumes "asciiAlpha a" "list_all schemeChar sch" "map asciiLowercase (a # sch) \<noteq> ''rtsp''"
  shows "parseRTSPUrl newURL (a # sch @ CHR '':'' # rest) = None"
proof (cases "newURL (a # sch @ CHR '':'' # rest)")
  case None
  then show ?thesis by (simp add: parseRTSPUrl_def)
next
  case (Some u)
  obtain r where "parseScheme (filter (\<lambda>c. \<not> asciiTabOrNewline c)
                  (trimC0ControlOrSpace (a # sch @ CHR '':'' # rest)))
               = Some (map asciiLowercase (a # sch), r)"
    using parseScheme_scheme [OF assms(1,2)] by blast
  then have "url_protocol u = map asciiLowercase (a # sch) @ '':''"
    using Some by (rule newURL_protocol [rotated])
  then have "url_protocol u \<noteq> ''rtsp:''"
    using assms(3) by auto
  then show ?thesis using Some by (simp add: parseRTSPUrl_def)
qed

lemma parsePort_range: "parsePort t = Some (Some n) \<Longrightarrow> n \<le> 65535"
  by (auto simp: parsePort_def split: if_splits)

lemma parseAuthority_port_range:
  assumes "parseAuthority a = Some (u, p, h, Some n)"
  shows "n \<le> 65535"
  using assms parsePort_range
  by (auto simp: parseAuthority_def Let_def split: if_splits option.splits)

lemma newURL_port:
  assumes "newURL url = Some u"
  shows "url_port u = [] \<or> (\<exists>n\<le>65535. url_port u = decimalDigits n)"
  using assms parseAuthority_port_range
  by (fastforce simp: newURL_def split: option.splits if_splits prod.splits)

lemma parseRTSPUrl_port_range:
  assumes "parseRTSPUrl newURL url = Some c"
  shows "\<exists>n\<le>65535. port c = Some (Num (int n))"
proof -
  from assms obtain u where u: "newURL url = Some u" "url_protocol u = ''rtsp:''"
    and c: "port c = Some (if url_port u \<noteq> [] then parseInt (url_port u) else Num 554)"
    by (auto simp: parseRTSPUrl_def split: option.splits if_splits)
  from newURL_port [OF u(1)] show ?thesis
  proof
    assume "url_port u = []"
    then have "port c = Some (Num (int 554))" using c by simp
    then show ?thesis by (intro exI [of _ 554]) simp
  next
    assume "\<exists>n\<le>65535. url_port u = decimalDigits n"
    then obtain n where n: "n \<le> 65535" "url_port u = decimalDigits n" by blast
    then have "port c = Some (Num (int n))"
      using c by (simp add: decimalDigits_nonempty parseInt_decimalDigits)
    then show ?thesis using n(1) by blast
  qed
qed

text \<open>The definitions that evaluate \<open>newURL\<close> and \<open>parseRTSPUrl\<close> on a given string.\<close>

lemmas url_eval =
  parseRTSPUrl_def newURL_def parseScheme_def trimC0ControlOrSpace_def c0ControlOrSpace_def
  charCode_def asciiTabOrNewline_def asciiAlpha_def asciiUpperAlpha_def asciiLowerAlpha_def
  schemeChar_def asciiDigit_def asciiLowercase_def authorityEnd_def parseAuthority_def
  splitCredentials_def parseHost_def parseOpaqueHost_def forbiddenHostCodePoint_def
  percentEncodeWith_def percentEncode_def c0ControlSet_def userinfoSet_def pathSet_def
  querySet_def parsePort_def digitsValue_def digitValue_def decimalDigits.simps parsePath_def
  pathEnd_def serializePath_def endSegment_def singleDotSegment_def doubleDotSegment_def
  parseInt_def isWhiteSpace_def Let_def

text \<open>
  Claim C9, as amended. \<open>parseRTSPUrl\<close> returns a value for every string, and never
  throws. For every URL constructor, it returns \<open>null\<close> (\<open>None\<close>) exactly when the
  constructor throws on the string or the URL it returns has a protocol other than
  \<open>rtsp:\<close>; otherwise it returns an object, whose port is 554 when the port of the URL is
  absent (the empty string). With the constructor of the URL Standard, it returns
  \<open>null\<close> for every string without a colon and for every string that starts with a
  scheme other than \<open>rtsp\<close> (in any letter case) and a colon, and the port of a returned
  object is an integer from 0 to 65535.
\<close>

theorem parseRTSPUrl_null_cases:
  "(parseRTSPUrl URL url = None \<longleftrightarrow>
      URL url = None \<or> (\<exists>u. URL url = Some u \<and> url_protocol u \<noteq> ''rtsp:''))
   \<and> (\<forall>u. URL url = Some u \<longrightarrow> url_protocol u = ''rtsp:'' \<longrightarrow>
         (\<exists>c. parseRTSPUrl URL url = Some c \<and>
              port c = Some (if url_port u = [] then Num 554 else parseInt (url_port u))))
   \<and> (CHR '':'' \<notin> set url \<longrightarrow> parseRTSPUrl newURL url = None)
   \<and> (asciiAlpha a \<and> list_all schemeChar sch \<and> map asciiLowercase (a # sch) \<noteq> ''rtsp'' \<longrightarrow>
         parseRTSPUrl newURL (a # sch @ CHR '':'' # rest) = None)
   \<and> (\<forall>c. parseRTSPUrl newURL url = Some c \<longrightarrow> (\<exists>n\<le>65535. port c = Some (Num (int n))))"
proof (intro conjI allI impI)
  show "parseRTSPUrl URL url = None \<longleftrightarrow>
      URL url = None \<or> (\<exists>u. URL url = Some u \<and> url_protocol u \<noteq> ''rtsp:'')"
    by (auto simp: parseRTSPUrl_def split: option.splits)
next
  fix u assume "URL url = Some u" "url_protocol u = ''rtsp:''"
  then show "\<exists>c. parseRTSPUrl URL url = Some c \<and>
              port c = Some (if url_port u = [] then Num 554 else parseInt (url_port u))"
    by (simp add: parseRTSPUrl_def)
next
  assume "CHR '':'' \<notin> set url"
  then show "parseRTSPUrl newURL url = None"
    by (simp add: parseRTSPUrl_def newURL_no_colon)
next
  assume "asciiAlpha a \<and> list_all schemeChar sch \<and> map asciiLowercase (a # sch) \<noteq> ''rtsp''"
  then show "parseRTSPUrl newURL (a # sch @ CHR '':'' # rest) = None"
    by (intro parseRTSPUrl_other_scheme) simp_all
next
  fix c assume "parseRTSPUrl newURL url = Some c"
  then show "\<exists>n\<le>65535. port c = Some (Num (int n))"
    by (rule parseRTSPUrl_port_range)
qed

text \<open>
  A string without a colon, a string with the scheme \<open>http\<close>, and two \<open>rtsp\<close> strings,
  without a port and with one.
\<close>

theorem parseRTSPUrl_null_cases_witness:
  "parseRTSPUrl newURL ''not-a-url'' = None
   \<and> parseRTSPUrl newURL ''http://192.168.1.1'' = None
   \<and> (\<exists>c. parseRTSPUrl newURL ''rtsp://192.168.1.1/stream'' = Some c \<and> port c = Some (Num 554))
   \<and> (\<exists>c. parseRTSPUrl newURL ''rtsp://192.168.1.1:8554/stream'' = Some c
          \<and> port c = Some (Num 8554))"
proof -
  have a: "CHR '':'' \<notin> set ''not-a-url''" by simp
  have b: "asciiAlpha (CHR ''h'') \<and> list_all schemeChar ''ttp''
           \<and> map asciiLowercase (CHR ''h'' # ''ttp'') \<noteq> ''rtsp''"
    by (simp add: asciiAlpha_def asciiUpperAlpha_def asciiLowerAlpha_def schemeChar_def
        asciiDigit_def asciiLowercase_def charCode_def)
  have c: "newURL ''rtsp://192.168.1.1/stream'' =
     Some \<lparr>url_protocol = ''rtsp:'', url_username = [], url_password = [],
           url_hostname = ''192.168.1.1'', url_port = [], url_pathname = ''/stream''\<rparr>"
    "newURL ''rtsp://192.168.1.1:8554/stream'' =
     Some \<lparr>url_protocol = ''rtsp:'', url_username = [], url_password = [],
           url_hostname = ''192.168.1.1'', url_port = ''8554'', url_pathname = ''/stream''\<rparr>"
    by (simp_all add: url_eval)
  have d: "parseInt ''8554'' = Num 8554"
    by (simp add: url_eval)
  have "parseRTSPUrl newURL ''not-a-url'' = None"
    using parseRTSPUrl_null_cases [of newURL "''not-a-url''"] a by blast
  moreover have "parseRTSPUrl newURL (CHR ''h'' # ''ttp'' @ CHR '':'' # ''//192.168.1.1'') = None"
    using parseRTSPUrl_null_cases [of newURL "[]" "CHR ''h''" "''ttp''" "''//192.168.1.1''"] b
    by blast
  moreover have "\<exists>c. parseRTSPUrl newURL ''rtsp://192.168.1.1/stream'' = Some c
                    \<and> port c = Some (Num 554)"
    using parseRTSPUrl_null_cases [of newURL "''rtsp://192.168.1.1/stream''"] c(1) by simp
  moreover have "\<exists>c. parseRTSPUrl newURL ''rtsp://192.168.1.1:8554/stream'' = Some c
                    \<and> port c = Some (Num 8554)"
    using parseRTSPUrl_null_cases [of newURL "''rtsp://192.168.1.1:8554/stream''"] c(2) d by simp
  ultimately show ?thesis by simp
qed

text \<open>
  Three strings that are not of the textual form of an endpoint and are not answered by
  \<open>null\<close>. \<open>rtsp:foo\<close> has no authority: the object has an empty host and the path
  \<open>oo\<close>, what \<open>slice(1)\<close> leaves of the path \<open>foo\<close>. \<open>rtsp://\<close> has an empty host, which
  the URL Standard allows for a scheme that is not special. In the third, the port 0 is
  returned as it is written.
\<close>

theorem parseRTSPUrl_malformed_counterexample:
  "parseRTSPUrl newURL ''rtsp:foo''
     = Some \<lparr>username = None, password = None, ipAddress = Some [], port = Some (Num 554),
             streamPath = Some ''oo'', protocol = None\<rparr>
   \<and> parseRTSPUrl newURL ''rtsp://''
     = Some \<lparr>username = None, password = None, ipAddress = Some [], port = Some (Num 554),
             streamPath = Some [], protocol = None\<rparr>
   \<and> parseRTSPUrl newURL ''rtsp://192.168.1.100:0/stream1''
     = Some \<lparr>username = None, password = None, ipAddress = Some ''192.168.1.100'',
             port = Some (Num 0), streamPath = Some ''stream1'', protocol = None\<rparr>"
  by (simp add: url_eval)




end
